theory Spec2Isabelle
  imports
    Main
    "HOL-Library.Word"
    "HOL-Library.Char_ord"
    "HOL-Library.List_Lexorder"
    "HOL-Library.Finite_Map"
begin

section \<open>Data model (package model)\<close>

text \<open>
  Go's \<open>int\<close> and \<open>int64\<close> are 64-bit two's complement integers: \<open>+\<close> and \<open>-\<close> wrap,
  comparisons read the value with \<open>sint\<close>.  \<open>Amount\<close> is only ever compared, never
  computed with, so it is kept as the integer it denotes.

  A \<open>time.Time\<close> is identified with the instant it denotes, counted in nanoseconds from
  the zero Time (January 1, year 1, 00:00:00 UTC).  \<open>Before\<close>, \<open>After\<close>, \<open>Equal\<close> and
  \<open>IsZero\<close> of the library look at the instant only.

  Strings are byte strings; \<open><\<close> on them is the bytewise lexicographic order, as in Go.

  A \<open>map[string]string\<close> is a finite map or the nil map (\<open>None\<close>).
\<close>

type_synonym go_int = "64 word"

type_synonym time = int

type_synonym metadata = "(string, string) fmap option"

definition time_Before :: "time \<Rightarrow> time \<Rightarrow> bool" where
  "time_Before t u = (t < u)"

definition time_After :: "time \<Rightarrow> time \<Rightarrow> bool" where
  "time_After t u = (u < t)"

definition time_Equal :: "time \<Rightarrow> time \<Rightarrow> bool" where
  "time_Equal t u = (t = u)"

definition time_IsZero :: "time \<Rightarrow> bool" where
  "time_IsZero t = (t = 0)"

definition Hour :: int where
  "Hour = 3600 * 1000000000"

definition time_Add :: "time \<Rightarrow> int \<Rightarrow> time" where
  "time_Add t d = t + d"

text \<open>\<open>len(m)\<close>: the nil map has length 0.\<close>

definition len_map :: "metadata \<Rightarrow> nat" where
  "len_map m = (case m of None \<Rightarrow> 0 | Some f \<Rightarrow> fcard (fmdom f))"

text \<open>\<open>v, ok := m[k]\<close>: reading the nil map finds nothing.\<close>

definition lookup_ok :: "metadata \<Rightarrow> string \<Rightarrow> string option" where
  "lookup_ok m k = (case m of None \<Rightarrow> None | Some f \<Rightarrow> fmlookup f k)"

text \<open>
  \<open>for k, v := range m { if \<not> P k v { return false } }\<close>, reaching the end when every
  entry passes; the result does not depend on the iteration order.
\<close>

definition range_all :: "metadata \<Rightarrow> (string \<Rightarrow> string \<Rightarrow> bool) \<Rightarrow> bool" where
  "range_all m P = (case m of None \<Rightarrow> True | Some f \<Rightarrow> fmpred P f)"

record Transaction =
  ID :: string
  Amount :: int
  Currency :: string
  EffectiveAt :: time
  Metadata :: metadata

text \<open>The zero value \<open>model.Transaction{}\<close>.\<close>

definition zero_Transaction :: Transaction where
  "zero_Transaction =
     \<lparr>ID = '''', Amount = 0, Currency = '''', EffectiveAt = 0, Metadata = None\<rparr>"

text \<open>
  \<open>Transaction.Clone\<close>: a fresh map that receives every entry of the old one, unless the
  map is nil.  Values have no identity here, so the copy is the same value.
\<close>

definition Clone :: "Transaction \<Rightarrow> Transaction" where
  "Clone t =
     (case Metadata t of
        None \<Rightarrow> t
      | Some f \<Rightarrow> t\<lparr>Metadata := Some (fmadd fmempty f)\<rparr>)"

text \<open>\<open>Transaction.Equal\<close>, the version that lives beside \<open>Clone\<close>.\<close>

definition Equal :: "Transaction \<Rightarrow> Transaction \<Rightarrow> bool" where
  "Equal t other =
     (if ID t \<noteq> ID other \<or> Amount t \<noteq> Amount other \<or> Currency t \<noteq> Currency other
         \<or> \<not> time_Equal (EffectiveAt t) (EffectiveAt other)
      then False
      else if len_map (Metadata t) \<noteq> len_map (Metadata other) then False
      else range_all (Metadata t) (\<lambda>k v. lookup_ok (Metadata other) k = Some v))"

section \<open>The store (package store)\<close>

datatype StoreError = ErrNotFound | ErrConflict | ErrDuplicate

datatype panic = SliceBoundsOutOfRange | MakesliceLenOutOfRange

record MemoryStore =
  transactions :: "string \<rightharpoonup> Transaction"
  ordered :: "Transaction list"

definition NewMemoryStore :: MemoryStore where
  "NewMemoryStore = \<lparr>transactions = Map.empty, ordered = []\<rparr>"

text \<open>
  \<open>sort.Search(n, f)\<close> of the library: binary search for the least index in \<open>[0, n)\<close> at
  which \<open>f\<close> holds, \<open>n\<close> when there is none.  \<open>f\<close> is only called inside \<open>[0, n)\<close>.
\<close>

function Search_loop :: "nat \<Rightarrow> nat \<Rightarrow> (nat \<Rightarrow> bool) \<Rightarrow> nat" where
  "Search_loop i j f =
     (if i < j
      then (let h = (i + j) div 2
            in if \<not> f h then Search_loop (h + 1) j f else Search_loop i h f)
      else i)"
  by pat_completeness auto
termination
  by (relation "measure (\<lambda>(i, j, f). j - i)") auto

definition Search :: "nat \<Rightarrow> (nat \<Rightarrow> bool) \<Rightarrow> nat" where
  "Search n f = Search_loop 0 n f"

text \<open>The closure \<open>shouldInsertBefore\<close> of \<open>Create\<close>.\<close>

definition shouldInsertBefore :: "Transaction list \<Rightarrow> Transaction \<Rightarrow> nat \<Rightarrow> bool" where
  "shouldInsertBefore xs txn i =
     (let existing = xs ! i
      in if time_Before (EffectiveAt txn) (EffectiveAt existing) then True
         else if time_After (EffectiveAt txn) (EffectiveAt existing) then False
         else ID txn < ID existing)"

text \<open>
  The three statements that open a gap at \<open>index\<close> and fill it: append the zero value,
  \<open>copy(s.ordered[index+1:], s.ordered[index:])\<close>, assign \<open>s.ordered[index]\<close>.
  \<open>copy\<close> moves as many elements as the shorter of its two slices holds.
\<close>

definition insert_at :: "Transaction list \<Rightarrow> nat \<Rightarrow> Transaction \<Rightarrow> Transaction list" where
  "insert_at xs index stored =
     (let grown = xs @ [zero_Transaction];
          shifted = take (index + 1) grown
                    @ take (length grown - (index + 1)) (drop index grown)
      in shifted[index := stored])"

text \<open>
  \<open>MemoryStore.Create\<close>: the returned error (\<open>None\<close> is \<open>nil\<close>) and the store afterwards.
\<close>

definition Create :: "MemoryStore \<Rightarrow> Transaction \<Rightarrow> StoreError option \<times> MemoryStore" where
  "Create s txn =
     (case transactions s (ID txn) of
        Some existingTxn \<Rightarrow>
          if Equal existingTxn txn then (Some ErrDuplicate, s) else (Some ErrConflict, s)
      | None \<Rightarrow>
          (let stored = Clone txn;
               s1 = s\<lparr>transactions := (transactions s)(ID txn \<mapsto> stored)\<rparr>;
               index = Search (length (ordered s1)) (shouldInsertBefore (ordered s1) txn)
           in (None, s1\<lparr>ordered := insert_at (ordered s1) index stored\<rparr>)))"

text \<open>\<open>MemoryStore.Get\<close>.\<close>

definition Get :: "MemoryStore \<Rightarrow> string \<Rightarrow> Transaction \<times> StoreError option" where
  "Get s tid =
     (case transactions s tid of
        Some existingTxn \<Rightarrow> (Clone existingTxn, None)
      | None \<Rightarrow> (zero_Transaction, Some ErrNotFound))"

text \<open>
  The largest length \<open>make([]model.Transaction, n)\<close> accepts: the runtime refuses a
  negative length and one whose size in bytes exceeds its allocation limit (\<open>2 ^ 48\<close>
  bytes on 64-bit platforms; a Transaction occupies 72 bytes).
\<close>

definition maxSliceLen :: int where
  "maxSliceLen = 2 ^ 48 div 72"

text \<open>
  \<open>MemoryStore.List\<close>.  The slice expression \<open>s.ordered[offset:end]\<close> panics unless
  \<open>0 \<le> offset \<le> end \<le> cap\<close>; \<open>end\<close> never exceeds the length here.
\<close>

definition List :: "MemoryStore \<Rightarrow> go_int \<Rightarrow> go_int
    \<Rightarrow> panic + (Transaction list \<times> StoreError option)" where
  "List s limit offset =
     (let n = int (length (ordered s))
      in if n \<le> sint offset then Inr ([], None)
         else
           (let end0 = offset + limit;
                end = (if n < sint end0 then word_of_int n else end0);
                len = end - offset
            in if sint len < 0 \<or> maxSliceLen < sint len then Inl MakesliceLenOutOfRange
               else if sint offset < 0 \<or> sint end < sint offset then Inl SliceBoundsOutOfRange
               else Inr (map Clone (take (nat (sint end) - nat (sint offset))
                                         (drop (nat (sint offset)) (ordered s))), None)))"

section \<open>Library functions used by package api\<close>

text \<open>
  \<open>strconv.ParseInt(s, 10, 64)\<close> and \<open>strconv.Atoi(s)\<close>: an optional sign, then one or
  more decimal digits and nothing else; a value outside the 64-bit range is an error.
  \<open>None\<close> stands for a non-nil error.
\<close>

definition isDigit :: "char \<Rightarrow> bool" where
  "isDigit c = (CHR ''0'' \<le> c \<and> c \<le> CHR ''9'')"

definition digitVal :: "char \<Rightarrow> nat" where
  "digitVal c = of_char c - 48"

definition parse_uint :: "string \<Rightarrow> nat option" where
  "parse_uint s =
     (if s = [] \<or> \<not> list_all isDigit s then None
      else Some (foldl (\<lambda>a c. 10 * a + digitVal c) 0 s))"

definition ParseInt :: "string \<Rightarrow> int option" where
  "ParseInt s =
     (case s of
        [] \<Rightarrow> None
      | c # r \<Rightarrow>
          (case parse_uint (if c = CHR ''+'' \<or> c = CHR ''-'' then r else s) of
             None \<Rightarrow> None
           | Some u \<Rightarrow>
               (let v = (if c = CHR ''-'' then - int u else int u)
                in if - (2 ^ 63) \<le> v \<and> v < 2 ^ 63 then Some v else None)))"

definition Atoi :: "string \<Rightarrow> go_int option" where
  "Atoi s = map_option word_of_int (ParseInt s)"

text \<open>
  \<open>strings.ToUpper\<close> and \<open>strings.EqualFold\<close>, for ASCII strings: the letters
  \<open>a\<close> to \<open>z\<close> fold onto \<open>A\<close> to \<open>Z\<close>, every other byte stands for itself.
\<close>

definition upperByte :: "char \<Rightarrow> char" where
  "upperByte c =
     (if CHR ''a'' \<le> c \<and> c \<le> CHR ''z'' then char_of (of_char c - (32 :: nat)) else c)"

definition ToUpper :: "string \<Rightarrow> string" where
  "ToUpper s = map upperByte s"

definition EqualFold :: "string \<Rightarrow> string \<Rightarrow> bool" where
  "EqualFold s t = (map upperByte s = map upperByte t)"

text \<open>
  \<open>time.Parse("2006-01-02", s)\<close>: four digits, a dash, two digits, a dash, two digits,
  with the month in 1..12 and the day inside the month; the result is midnight UTC of
  that day in the proleptic Gregorian calendar.
\<close>

definition isLeap :: "int \<Rightarrow> bool" where
  "isLeap y = (y mod 4 = 0 \<and> (y mod 100 \<noteq> 0 \<or> y mod 400 = 0))"

definition daysIn :: "nat \<Rightarrow> int \<Rightarrow> nat" where
  "daysIn m y =
     (if m = 2 then (if isLeap y then 29 else 28)
      else if m = 4 \<or> m = 6 \<or> m = 9 \<or> m = 11 then 30 else 31)"

definition Date :: "int \<Rightarrow> nat \<Rightarrow> nat \<Rightarrow> time" where
  "Date y m d =
     (365 * (y - 1) + (y - 1) div 4 - (y - 1) div 100 + (y - 1) div 400
        + (\<Sum>k\<leftarrow>[1..<m]. int (daysIn k y)) + (int d - 1)) * (24 * Hour)"

definition time_Parse :: "string \<Rightarrow> time option" where
  "time_Parse s =
     (if length s = 10 \<and> s ! 4 = CHR ''-'' \<and> s ! 7 = CHR ''-''
      then (case (parse_uint (take 4 s), parse_uint (take 2 (drop 5 s)),
                  parse_uint (drop 8 s)) of
              (Some y, Some m, Some d) \<Rightarrow>
                if m < 1 \<or> 12 < m then None
                else if d < 1 \<or> daysIn m (int y) < d then None
                else Some (Date (int y) m d)
            | _ \<Rightarrow> None)
      else None)"

text \<open>\<open>url.Values\<close> and its \<open>Get\<close>: the first value of the key, the empty string without one.\<close>

type_synonym Values = "string \<rightharpoonup> string list"

definition Values_Get :: "Values \<Rightarrow> string \<Rightarrow> string" where
  "Values_Get v key = (case v key of None \<Rightarrow> '''' | Some [] \<Rightarrow> '''' | Some (x # _) \<Rightarrow> x)"

section \<open>Query pipeline and list handler (package api)\<close>

text \<open>An \<open>error\<close> of this package: \<open>errors.New\<close> of a message, or the library's parse error.\<close>

datatype error = New string | ParseError

definition ValidateTransaction :: "Transaction \<Rightarrow> error option" where
  "ValidateTransaction txn =
     (if ID txn = '''' then Some (New ''id is required'')
      else if Currency txn = '''' then Some (New ''currency is required'')
      else if Amount txn < 0 then Some (New ''amount must be positive'')
      else if time_IsZero (EffectiveAt txn) then Some (New ''effective_at is required'')
      else None)"

definition ValidatePagination :: "go_int \<Rightarrow> go_int \<Rightarrow> error option" where
  "ValidatePagination limit offset =
     (if sint limit < 1 \<or> 1000 < sint limit
      then Some (New ''limit must be between 1 and 1000'')
      else if sint offset < 0 then Some (New ''offset must be non-negative'')
      else None)"

definition ParseIntOrDefault :: "string \<Rightarrow> go_int \<Rightarrow> go_int" where
  "ParseIntOrDefault s defaultVal =
     (if s = '''' then defaultVal
      else (case Atoi s of None \<Rightarrow> defaultVal | Some val \<Rightarrow> val))"

definition ParseDateOrNil :: "string \<Rightarrow> error + time option" where
  "ParseDateOrNil dateStr =
     (if dateStr = '''' then Inr None
      else (case time_Parse dateStr of None \<Rightarrow> Inl ParseError | Some t \<Rightarrow> Inr (Some t)))"

definition ParseAndValidateDateFilters ::
    "string \<Rightarrow> string \<Rightarrow> error + (time option \<times> time option)" where
  "ParseAndValidateDateFilters startDateStr endDateStr =
     (case (if startDateStr \<noteq> '''' then ParseDateOrNil startDateStr else Inr None) of
        Inl _ \<Rightarrow> Inl (New ''invalid start_date format, use YYYY-MM-DD'')
      | Inr startDate \<Rightarrow>
          (case (if endDateStr \<noteq> '''' then ParseDateOrNil endDateStr else Inr None) of
             Inl _ \<Rightarrow> Inl (New ''invalid end_date format, use YYYY-MM-DD'')
           | Inr endDate \<Rightarrow>
               (case (startDate, endDate) of
                  (Some a, Some b) \<Rightarrow>
                    if time_After a b
                    then Inl (New ''start_date must be before or equal to end_date'')
                    else Inr (startDate, endDate)
                | _ \<Rightarrow> Inr (startDate, endDate))))"

definition ParseAndValidateAmountFilters ::
    "string \<Rightarrow> string \<Rightarrow> error + (int option \<times> int option)" where
  "ParseAndValidateAmountFilters minAmountStr maxAmountStr =
     (case (if minAmountStr \<noteq> ''''
            then (case ParseInt minAmountStr of
                    None \<Rightarrow> Inl (New ''invalid min_amount'') | Some val \<Rightarrow> Inr (Some val))
            else Inr None) of
        Inl e \<Rightarrow> Inl e
      | Inr minAmount \<Rightarrow>
          (case (if maxAmountStr \<noteq> ''''
                 then (case ParseInt maxAmountStr of
                         None \<Rightarrow> Inl (New ''invalid max_amount'') | Some val \<Rightarrow> Inr (Some val))
                 else Inr None) of
             Inl e \<Rightarrow> Inl e
           | Inr maxAmount \<Rightarrow>
               (case (minAmount, maxAmount) of
                  (Some a, Some b) \<Rightarrow>
                    if b < a
                    then Inl (New ''min_amount must be less than or equal to max_amount'')
                    else Inr (minAmount, maxAmount)
                | _ \<Rightarrow> Inr (minAmount, maxAmount))))"

text \<open>
  \<open>ApplyFilters\<close>: the loop over the input, one equation per element; each \<open>continue\<close>
  drops the element, reaching the end of the body appends it.
\<close>

fun ApplyFilters :: "Transaction list \<Rightarrow> string \<Rightarrow> time option \<Rightarrow> time option
    \<Rightarrow> int option \<Rightarrow> int option \<Rightarrow> Transaction list" where
  "ApplyFilters [] currency startDate endDate minAmount maxAmount = []"
| "ApplyFilters (txn # rest) currency startDate endDate minAmount maxAmount =
     (if currency \<noteq> '''' \<and> \<not> EqualFold (Currency txn) currency
      then ApplyFilters rest currency startDate endDate minAmount maxAmount
      else if (case startDate of
                 None \<Rightarrow> False | Some sd \<Rightarrow> time_Before (EffectiveAt txn) sd)
      then ApplyFilters rest currency startDate endDate minAmount maxAmount
      else if (case endDate of
                 None \<Rightarrow> False
               | Some ed \<Rightarrow> time_After (EffectiveAt txn) (time_Add ed (24 * Hour)))
      then ApplyFilters rest currency startDate endDate minAmount maxAmount
      else if (case minAmount of None \<Rightarrow> False | Some lo \<Rightarrow> Amount txn < lo)
      then ApplyFilters rest currency startDate endDate minAmount maxAmount
      else if (case maxAmount of None \<Rightarrow> False | Some hi \<Rightarrow> hi < Amount txn)
      then ApplyFilters rest currency startDate endDate minAmount maxAmount
      else txn # ApplyFilters rest currency startDate endDate minAmount maxAmount)"

text \<open>
  \<open>ApplyPagination\<close>: \<open>transactions[start:end]\<close> panics unless \<open>0 \<le> start \<le> end\<close>
  (\<open>end\<close> never exceeds the length).
\<close>

definition ApplyPagination :: "Transaction list \<Rightarrow> go_int \<Rightarrow> go_int
    \<Rightarrow> panic + Transaction list" where
  "ApplyPagination txns limit offset =
     (let n = int (length txns);
          start = (if n < sint offset then word_of_int n else offset);
          end0 = start + limit;
          end = (if n < sint end0 then word_of_int n else end0)
      in if sint start < 0 \<or> sint end < sint start then Inl SliceBoundsOutOfRange
         else Inr (take (nat (sint end) - nat (sint start)) (drop (nat (sint start)) txns)))"

definition parseQueryParams ::
    "Values \<Rightarrow> go_int \<times> go_int \<times> string \<times> string \<times> string \<times> string \<times> string" where
  "parseQueryParams query =
     (ParseIntOrDefault (Values_Get query ''limit'') 100,
      ParseIntOrDefault (Values_Get query ''offset'') 0,
      ToUpper (Values_Get query ''currency''),
      Values_Get query ''start_date'',
      Values_Get query ''end_date'',
      Values_Get query ''min_amount'',
      Values_Get query ''max_amount'')"

text \<open>
  \<open>Handler.ListTransactions\<close> over a \<open>MemoryStore\<close>.  The result is the list of calls
  made to the store, in order, and the response written (its status and, for 200, the
  records that are encoded), or the panic that ended the handler.
\<close>

datatype store_call = Call_List go_int go_int

datatype response =
    BadRequest error
  | InternalServerError StoreError
  | OK "Transaction list"

definition ListTransactions :: "MemoryStore \<Rightarrow> Values
    \<Rightarrow> store_call list \<times> (panic + response)" where
  "ListTransactions s query =
     (case parseQueryParams query of
        (limit, offset, currency, startDateStr, endDateStr, minAmountStr, maxAmountStr) \<Rightarrow>
     (case ValidatePagination limit offset of
        Some err \<Rightarrow> ([], Inr (BadRequest err))
      | None \<Rightarrow>
     (case ParseAndValidateDateFilters startDateStr endDateStr of
        Inl err \<Rightarrow> ([], Inr (BadRequest err))
      | Inr (startDate, endDate) \<Rightarrow>
     (case ParseAndValidateAmountFilters minAmountStr maxAmountStr of
        Inl err \<Rightarrow> ([], Inr (BadRequest err))
      | Inr (minAmount, maxAmount) \<Rightarrow>
          (let maxRecords = 10000
           in case List s maxRecords 0 of
                Inl p \<Rightarrow> ([Call_List maxRecords 0], Inl p)
              | Inr (allTransactions, Some err) \<Rightarrow>
                  ([Call_List maxRecords 0], Inr (InternalServerError err))
              | Inr (allTransactions, None) \<Rightarrow>
                  (let filtered = ApplyFilters allTransactions currency startDate endDate
                                    minAmount maxAmount
                   in case ApplyPagination filtered limit offset of
                        Inl p \<Rightarrow> ([Call_List maxRecords 0], Inl p)
                      | Inr results \<Rightarrow> ([Call_List maxRecords 0], Inr (OK results))))))))"

section \<open>Clients and reference notions\<close>

text \<open>A client that issues one \<open>Create\<close> per transaction, in order, whatever each returns.\<close>

definition creates :: "Transaction list \<Rightarrow> MemoryStore \<Rightarrow> MemoryStore" where
  "creates txns s = fold (\<lambda>txn st. snd (Create st txn)) txns s"

text \<open>
  The order the store promises: earlier \<open>EffectiveAt\<close> first, and among equal
  \<open>EffectiveAt\<close> the smaller \<open>ID\<close> first.
\<close>

definition precedes :: "Transaction \<Rightarrow> Transaction \<Rightarrow> bool" where
  "precedes a b =
     (EffectiveAt a < EffectiveAt b \<or> (EffectiveAt a = EffectiveAt b \<and> ID a < ID b))"

text \<open>
  The invariant that ties the two structures of the store together: the sequence is
  in order, every record of the sequence is the one the index holds under its id, and
  the index holds nothing else.
\<close>

definition store_inv :: "MemoryStore \<Rightarrow> bool" where
  "store_inv s =
     (sorted_wrt precedes (ordered s)
      \<and> list_all (\<lambda>t. transactions s (ID t) = Some t) (ordered s)
      \<and> ran (transactions s) \<subseteq> set (ordered s))"

text \<open>The content of a metadata map, where the nil map and the empty map hold the same.\<close>

definition entries :: "metadata \<Rightarrow> (string, string) fmap" where
  "entries m = (case m of None \<Rightarrow> fmempty | Some f \<Rightarrow> f)"

text \<open>
  A client that pages through the store: \<open>List(limit, 0)\<close>, \<open>List(limit, limit)\<close>,
  \<open>List(limit, 2 * limit)\<close>, ..., \<open>p\<close> pages in all, and joins the pages; the first
  panic ends it.
\<close>

fun join_pages :: "(panic + (Transaction list \<times> StoreError option)) list
    \<Rightarrow> panic + Transaction list" where
  "join_pages [] = Inr []"
| "join_pages (Inl e # rest) = Inl e"
| "join_pages (Inr (page, err) # rest) =
     (case join_pages rest of Inl e \<Rightarrow> Inl e | Inr others \<Rightarrow> Inr (page @ others))"

definition fetch_pages :: "MemoryStore \<Rightarrow> go_int \<Rightarrow> nat
    \<Rightarrow> (panic + (Transaction list \<times> StoreError option)) list" where
  "fetch_pages s limit p = map (\<lambda>k. List s limit (word_of_nat k * limit)) [0..<p]"

section \<open>Facts about the model\<close>

lemma Clone_same [simp]: "Clone t = t"
  by (simp add: Clone_def split: option.split)

lemma Equal_refl: "Equal t t"
  by (cases "Metadata t")
    (simp_all add: Equal_def time_Equal_def range_all_def lookup_ok_def fmpred_iff)

lemma fmap_eq_by_len:
  "(fcard (fmdom f) = fcard (fmdom g) \<and> fmpred (\<lambda>k v. fmlookup g k = Some v) f) = (f = g)"
proof
  assume a: "fcard (fmdom f) = fcard (fmdom g) \<and> fmpred (\<lambda>k v. fmlookup g k = Some v) f"
  then have sub: "\<And>k v. fmlookup f k = Some v \<Longrightarrow> fmlookup g k = Some v"
    by (simp add: fmpred_iff)
  have "fmdom f |\<subseteq>| fmdom g"
  proof
    fix k assume "k |\<in>| fmdom f"
    then obtain v where "fmlookup f k = Some v" by (auto simp: fmlookup_dom_iff)
    then show "k |\<in>| fmdom g" using sub by (auto intro: fmdomI)
  qed
  then have dom: "fmdom f = fmdom g"
    using a by (intro fcard_seteq) simp_all
  show "f = g"
  proof (rule fmap_ext)
    fix x
    show "fmlookup f x = fmlookup g x"
    proof (cases "fmlookup f x")
      case None
      then have "x |\<notin>| fmdom g" using dom by (metis fmdom_notI)
      then show ?thesis using None by (simp add: fmdom_notD)
    next
      case (Some v)
      then show ?thesis using sub by simp
    qed
  qed
next
  assume "f = g"
  then show "fcard (fmdom f) = fcard (fmdom g) \<and> fmpred (\<lambda>k v. fmlookup g k = Some v) f"
    by (simp add: fmpred_iff)
qed

lemma fmdom_fempty_iff: "(fmdom g = {||}) = (g = fmempty)"
proof
  assume "fmdom g = {||}"
  then have "\<And>x. fmlookup g x = None" by (metis fmdom_notD fempty_iff)
  then show "g = fmempty" by (intro fmap_ext) simp
qed simp

lemma Equal_iff:
  "Equal t u = (ID t = ID u \<and> Amount t = Amount u \<and> Currency t = Currency u
      \<and> EffectiveAt t = EffectiveAt u \<and> entries (Metadata t) = entries (Metadata u))"
proof (cases "Metadata t")
  case None
  then show ?thesis
    by (cases "Metadata u")
      (auto simp: Equal_def time_Equal_def len_map_def range_all_def entries_def
         fmdom_fempty_iff)
next
  case (Some f)
  then show ?thesis
  proof (cases "Metadata u")
    case None
    with Some show ?thesis
      by (auto simp: Equal_def time_Equal_def len_map_def range_all_def entries_def
         fmdom_fempty_iff)
  next
    case (Some g)
    with \<open>Metadata t = Some f\<close> show ?thesis
      using fmap_eq_by_len[of f g]
      by (auto simp: Equal_def time_Equal_def len_map_def range_all_def entries_def
         lookup_ok_def)
  qed
qed

section \<open>Writes: idempotent retry\<close>

lemma Create_fresh:
  assumes "transactions s (ID T) = None"
  shows "fst (Create s T) = None"
    and "transactions (snd (Create s T)) = (transactions s)(ID T \<mapsto> T)"
  using assms by (simp_all add: Create_def Let_def)

text \<open>
  Claim C1 (idempotent write).  On any store state that does not hold the id of \<open>T\<close>,
  \<open>Create T\<close> returns nil (Accepted); the same \<open>Create T\<close> right after returns
  \<open>ErrDuplicate\<close> and leaves the whole store, and so the record under the id of \<open>T\<close>,
  as the first call left it; that record is \<open>T\<close>.
\<close>

theorem C1_idempotent_write:
  assumes "transactions s (ID T) = None"
  shows "fst (Create s T) = None
     \<and> Create (snd (Create s T)) T = (Some ErrDuplicate, snd (Create s T))
     \<and> transactions (snd (Create s T)) (ID T) = Some T"
proof -
  have stored: "transactions (snd (Create s T)) (ID T) = Some T"
    using Create_fresh(2)[OF assms] by simp
  have "Create (snd (Create s T)) T = (Some ErrDuplicate, snd (Create s T))"
    unfolding Create_def[of "snd (Create s T)" T] using stored Equal_refl by simp
  with stored Create_fresh(1)[OF assms] show ?thesis by simp
qed

theorem C1_idempotent_write_witness:
  "transactions NewMemoryStore ''txn-1'' = None
   \<and> fst (Create NewMemoryStore
        \<lparr>ID = ''txn-1'', Amount = 100, Currency = ''USD'', EffectiveAt = 5,
         Metadata = Some (fmupd ''k'' ''v'' fmempty)\<rparr>) = None
   \<and> fst (Create (snd (Create NewMemoryStore
        \<lparr>ID = ''txn-1'', Amount = 100, Currency = ''USD'', EffectiveAt = 5,
         Metadata = Some (fmupd ''k'' ''v'' fmempty)\<rparr>))
        \<lparr>ID = ''txn-1'', Amount = 100, Currency = ''USD'', EffectiveAt = 5,
         Metadata = Some (fmupd ''k'' ''v'' fmempty)\<rparr>) = Some ErrDuplicate"
  using C1_idempotent_write [of NewMemoryStore
      "\<lparr>ID = ''txn-1'', Amount = 100, Currency = ''USD'', EffectiveAt = 5,
        Metadata = Some (fmupd ''k'' ''v'' fmempty)\<rparr>"]
  by (simp add: NewMemoryStore_def)

section \<open>Writes: conflicting reuse of an id\<close>

text \<open>
  Claim C2 (conflict exclusivity), as the code has it.  Let the store not hold the id of
  \<open>T\<close>, and let \<open>T'\<close> carry the same id and differ from \<open>T\<close> in amount, currency,
  instant, or in the content of the metadata map, where a missing map and an empty map
  count as the same content.  Then \<open>Create T\<close> returns nil, \<open>Create T'\<close> returns
  \<open>ErrConflict\<close> and leaves the whole store as it was, and \<open>Get\<close> of the id still
  returns \<open>T\<close>.
\<close>

theorem C2_conflict_exclusive:
  assumes "transactions s (ID T) = None" and "ID T' = ID T"
    and "Amount T' \<noteq> Amount T \<or> Currency T' \<noteq> Currency T
         \<or> EffectiveAt T' \<noteq> EffectiveAt T
         \<or> entries (Metadata T') \<noteq> entries (Metadata T)"
  shows "fst (Create s T) = None
     \<and> Create (snd (Create s T)) T' = (Some ErrConflict, snd (Create s T))
     \<and> Get (snd (Create (snd (Create s T)) T')) (ID T) = (T, None)"
proof -
  have stored: "transactions (snd (Create s T)) (ID T') = Some T"
    using Create_fresh(2)[OF assms(1)] assms(2) by simp
  have ne: "\<not> Equal T T'"
    using assms(3) by (auto simp: Equal_iff)
  have c: "Create (snd (Create s T)) T' = (Some ErrConflict, snd (Create s T))"
    unfolding Create_def[of "snd (Create s T)" T'] using stored ne by simp
  have "Get (snd (Create s T)) (ID T) = (T, None)"
    using stored assms(2) by (simp add: Get_def)
  with c Create_fresh(1)[OF assms(1)] show ?thesis by simp
qed

theorem C2_conflict_exclusive_witness:
  "fst (Create NewMemoryStore
        \<lparr>ID = ''txn-1'', Amount = 100, Currency = ''USD'', EffectiveAt = 5,
         Metadata = Some (fmupd ''k'' ''v'' fmempty)\<rparr>) = None
   \<and> fst (Create (snd (Create NewMemoryStore
        \<lparr>ID = ''txn-1'', Amount = 100, Currency = ''USD'', EffectiveAt = 5,
         Metadata = Some (fmupd ''k'' ''v'' fmempty)\<rparr>))
        \<lparr>ID = ''txn-1'', Amount = 100, Currency = ''USD'', EffectiveAt = 5,
         Metadata = Some (fmupd ''k'' ''w'' fmempty)\<rparr>) = Some ErrConflict
   \<and> Get (snd (Create (snd (Create NewMemoryStore
        \<lparr>ID = ''txn-1'', Amount = 100, Currency = ''USD'', EffectiveAt = 5,
         Metadata = Some (fmupd ''k'' ''v'' fmempty)\<rparr>))
        \<lparr>ID = ''txn-1'', Amount = 100, Currency = ''USD'', EffectiveAt = 5,
         Metadata = Some (fmupd ''k'' ''w'' fmempty)\<rparr>)) ''txn-1''
      = (\<lparr>ID = ''txn-1'', Amount = 100, Currency = ''USD'', EffectiveAt = 5,
         Metadata = Some (fmupd ''k'' ''v'' fmempty)\<rparr>, None)"
proof -
  let ?T = "\<lparr>ID = ''txn-1'', Amount = 100, Currency = ''USD'', EffectiveAt = 5,
        Metadata = Some (fmupd ''k'' ''v'' fmempty)\<rparr>"
  let ?T' = "\<lparr>ID = ''txn-1'', Amount = 100, Currency = ''USD'', EffectiveAt = 5,
        Metadata = Some (fmupd ''k'' ''w'' fmempty)\<rparr>"
  have h1: "transactions NewMemoryStore (ID ?T) = None"
    by (simp add: NewMemoryStore_def)
  have h2: "ID ?T' = ID ?T" by simp
  have "fmlookup (entries (Metadata ?T')) ''k'' \<noteq> fmlookup (entries (Metadata ?T)) ''k''"
    by (simp add: entries_def)
  then have "entries (Metadata ?T') \<noteq> entries (Metadata ?T)" by metis
  then have h3: "Amount ?T' \<noteq> Amount ?T \<or> Currency ?T' \<noteq> Currency ?T
         \<or> EffectiveAt ?T' \<noteq> EffectiveAt ?T
         \<or> entries (Metadata ?T') \<noteq> entries (Metadata ?T)" by blast
  have id: "ID ?T = ''txn-1''" by simp
  from C2_conflict_exclusive [OF h1 h2 h3] show ?thesis unfolding id by (metis fst_conv)
qed

text \<open>
  The claim as written fails where the two payloads differ only in that one has no
  metadata map and the other an empty one: the second \<open>Create\<close> answers
  \<open>ErrDuplicate\<close>, not \<open>ErrConflict\<close>.
\<close>

theorem C2_nil_vs_empty_counterexample:
  "ID \<lparr>ID = ''txn-1'', Amount = 100, Currency = ''USD'', EffectiveAt = 5,
         Metadata = Some fmempty\<rparr>
     = ID \<lparr>ID = ''txn-1'', Amount = 100, Currency = ''USD'', EffectiveAt = 5,
         Metadata = None\<rparr>
   \<and> Metadata \<lparr>ID = ''txn-1'', Amount = 100, Currency = ''USD'', EffectiveAt = 5,
         Metadata = Some fmempty\<rparr>
     \<noteq> Metadata \<lparr>ID = ''txn-1'', Amount = 100, Currency = ''USD'', EffectiveAt = 5,
         Metadata = None\<rparr>
   \<and> fst (Create NewMemoryStore
        \<lparr>ID = ''txn-1'', Amount = 100, Currency = ''USD'', EffectiveAt = 5,
         Metadata = None\<rparr>) = None
   \<and> fst (Create (snd (Create NewMemoryStore
        \<lparr>ID = ''txn-1'', Amount = 100, Currency = ''USD'', EffectiveAt = 5,
         Metadata = None\<rparr>))
        \<lparr>ID = ''txn-1'', Amount = 100, Currency = ''USD'', EffectiveAt = 5,
         Metadata = Some fmempty\<rparr>) = Some ErrDuplicate"
  by (simp add: Create_def NewMemoryStore_def Let_def Equal_def time_Equal_def len_map_def
      range_all_def)

section \<open>Order of the sequence and agreement with the index\<close>

lemma insert_at_eq:
  assumes "index \<le> length xs"
  shows "insert_at xs index x = take index xs @ x # drop index xs"
proof -
  let ?g = "xs @ [zero_Transaction]"
  have "index < length ?g" using assms by simp
  then have "take (Suc index) ?g = take index ?g @ [?g ! index]"
    by (rule take_Suc_conv_app_nth)
  then have a: "take (index + 1) ?g = take index xs @ [?g ! index]"
    using assms by simp
  have b: "take (length ?g - (index + 1)) (drop index ?g) = drop index xs"
    using assms by simp
  have "insert_at xs index x = (take index xs @ [?g ! index] @ drop index xs)[index := x]"
    unfolding insert_at_def Let_def a b by simp
  also have "\<dots> = take index xs @ x # drop index xs"
    using assms by (simp add: list_update_append)
  finally show ?thesis .
qed

lemma Search_loop_spec:
  assumes "\<And>a b. a \<le> b \<Longrightarrow> b < n \<Longrightarrow> f a \<Longrightarrow> f b"
    and "i \<le> j" and "j \<le> n"
    and "\<And>k. k < i \<Longrightarrow> \<not> f k"
    and "\<And>k. j \<le> k \<Longrightarrow> k < n \<Longrightarrow> f k"
  shows "Search_loop i j f \<le> n
     \<and> (\<forall>k < Search_loop i j f. \<not> f k)
     \<and> (\<forall>k. Search_loop i j f \<le> k \<and> k < n \<longrightarrow> f k)"
  using assms
proof (induction i j f rule: Search_loop.induct)
  case (1 i j f)
  note mono = "1.prems"(1)
  note ij = "1.prems"(2) and jn = "1.prems"(3) and lo = "1.prems"(4) and hi = "1.prems"(5)
  show ?case
  proof (cases "i < j")
    case False
    then have "Search_loop i j f = i" by simp
    moreover have "i = j" using False ij by simp
    ultimately show ?thesis using jn lo hi by simp
  next
    case True
    define h where "h = (i + j) div 2"
    have hb: "i \<le> h" "h < j" using True by (auto simp: h_def)
    show ?thesis
    proof (cases "f h")
      case False
      have eq: "Search_loop i j f = Search_loop (h + 1) j f"
        using True False by (subst Search_loop.simps) (simp add: h_def Let_def)
      have below: "\<And>k. k < h + 1 \<Longrightarrow> \<not> f k"
      proof
        fix k assume "k < h + 1" and "f k"
        then have "k \<le> h" and "h < n" using hb jn by simp_all
        from mono[OF this \<open>f k\<close>] False show False by simp
      qed
      have "Search_loop (h + 1) j f \<le> n
         \<and> (\<forall>k < Search_loop (h + 1) j f. \<not> f k)
         \<and> (\<forall>k. Search_loop (h + 1) j f \<le> k \<and> k < n \<longrightarrow> f k)"
      proof (rule "1.IH"(1)[OF True h_def False])
        show "h + 1 \<le> j" using hb by simp
        show "j \<le> n" by (rule jn)
        show "\<And>a b. a \<le> b \<Longrightarrow> b < n \<Longrightarrow> f a \<Longrightarrow> f b" by (rule mono)
        show "\<And>k. k < h + 1 \<Longrightarrow> \<not> f k" by (rule below)
        show "\<And>k. j \<le> k \<Longrightarrow> k < n \<Longrightarrow> f k" by (rule hi)
      qed
      then show ?thesis unfolding eq .
    next
      case fh: True
      have eq: "Search_loop i j f = Search_loop i h f"
        using True fh by (subst Search_loop.simps) (simp add: h_def Let_def)
      have above: "\<And>k. h \<le> k \<Longrightarrow> k < n \<Longrightarrow> f k"
        by (rule mono[OF _ _ fh])
      have nfh: "\<not> \<not> f h" using fh by simp
      have "Search_loop i h f \<le> n
         \<and> (\<forall>k < Search_loop i h f. \<not> f k)
         \<and> (\<forall>k. Search_loop i h f \<le> k \<and> k < n \<longrightarrow> f k)"
      proof (rule "1.IH"(2)[OF True h_def nfh])
        show "i \<le> h" by (rule hb(1))
        show "h \<le> n" using hb jn by simp
        show "\<And>a b. a \<le> b \<Longrightarrow> b < n \<Longrightarrow> f a \<Longrightarrow> f b" by (rule mono)
        show "\<And>k. k < i \<Longrightarrow> \<not> f k" by (rule lo)
        show "\<And>k. h \<le> k \<Longrightarrow> k < n \<Longrightarrow> f k" by (rule above)
      qed
      then show ?thesis unfolding eq .
    qed
  qed
qed

lemma Search_spec:
  assumes "\<And>a b. a \<le> b \<Longrightarrow> b < n \<Longrightarrow> f a \<Longrightarrow> f b"
  shows "Search n f \<le> n" and "\<And>k. k < Search n f \<Longrightarrow> \<not> f k"
    and "\<And>k. Search n f \<le> k \<Longrightarrow> k < n \<Longrightarrow> f k"
proof -
  have "Search_loop 0 n f \<le> n
     \<and> (\<forall>k < Search_loop 0 n f. \<not> f k)
     \<and> (\<forall>k. Search_loop 0 n f \<le> k \<and> k < n \<longrightarrow> f k)"
    by (rule Search_loop_spec[of n f 0 n]) (use assms in simp_all)
  then show "Search n f \<le> n" and "\<And>k. k < Search n f \<Longrightarrow> \<not> f k"
    and "\<And>k. Search n f \<le> k \<Longrightarrow> k < n \<Longrightarrow> f k"
    unfolding Search_def by blast+
qed


lemma shouldInsertBefore_precedes:
  "shouldInsertBefore xs txn i = precedes txn (xs ! i)"
  by (simp add: shouldInsertBefore_def precedes_def time_Before_def time_After_def Let_def)

lemma precedes_trans: "precedes a b \<Longrightarrow> precedes b c \<Longrightarrow> precedes a c"
  unfolding precedes_def by (metis less_trans)

lemma precedes_total: "ID a \<noteq> ID b \<Longrightarrow> \<not> precedes a b \<Longrightarrow> precedes b a"
  unfolding precedes_def by (metis linorder_neqE)

lemma sorted_wrt_insert_mid:
  assumes "sorted_wrt precedes xs"
    and "\<And>k. k < r \<Longrightarrow> k < length xs \<Longrightarrow> precedes (xs ! k) x"
    and "\<And>k. r \<le> k \<Longrightarrow> k < length xs \<Longrightarrow> precedes x (xs ! k)"
  shows "sorted_wrt precedes (take r xs @ x # drop r xs)"
proof -
  have "sorted_wrt precedes (take r xs @ drop r xs)" using assms(1) by simp
  then have split: "sorted_wrt precedes (take r xs)" "sorted_wrt precedes (drop r xs)"
    "\<forall>a\<in>set (take r xs). \<forall>b\<in>set (drop r xs). precedes a b"
    unfolding sorted_wrt_append by blast+
  have before: "\<And>a. a \<in> set (take r xs) \<Longrightarrow> precedes a x"
  proof -
    fix a assume "a \<in> set (take r xs)"
    then obtain k where "k < length (take r xs)" and "take r xs ! k = a"
      by (auto simp: in_set_conv_nth)
    then show "precedes a x" using assms(2)[of k] by simp
  qed
  have after: "\<And>b. b \<in> set (drop r xs) \<Longrightarrow> precedes x b"
  proof -
    fix b assume "b \<in> set (drop r xs)"
    then obtain k where k: "k < length (drop r xs)" and "drop r xs ! k = b"
      by (auto simp: in_set_conv_nth)
    then have "xs ! (r + k) = b" by simp
    then show "precedes x b" using assms(3)[of "r + k"] k by auto
  qed
  show ?thesis
    using split before after
    by (simp add: sorted_wrt_append) 
qed


lemma store_inv_New: "store_inv NewMemoryStore"
  by (simp add: store_inv_def NewMemoryStore_def)

lemma Create_present:
  assumes "transactions s (ID txn) = Some e"
  shows "snd (Create s txn) = s"
  using assms by (simp add: Create_def)

lemma Create_inv:
  assumes inv: "store_inv s"
  shows "store_inv (snd (Create s txn))"
proof (cases "transactions s (ID txn)")
  case (Some e)
  then show ?thesis using inv by (simp add: Create_present)
next
  case None
  define xs where "xs = ordered s"
  define f where "f = shouldInsertBefore xs txn"
  define r where "r = Search (length xs) f"
  have sorted: "sorted_wrt precedes xs"
    and held: "\<And>e. e \<in> set xs \<Longrightarrow> transactions s (ID e) = Some e"
    and ran: "ran (transactions s) \<subseteq> set xs"
    using inv by (simp_all add: store_inv_def xs_def list_all_iff)
  have other: "\<And>e. e \<in> set xs \<Longrightarrow> ID e \<noteq> ID txn"
    using held None by fastforce
  have f: "\<And>i. f i = precedes txn (xs ! i)"
    by (simp add: f_def shouldInsertBefore_precedes)
  have mono: "\<And>a b. a \<le> b \<Longrightarrow> b < length xs \<Longrightarrow> f a \<Longrightarrow> f b"
  proof -
    fix a b assume ab: "a \<le> b" "b < length xs" and fa: "f a"
    show "f b"
    proof (cases "a = b")
      case True
      with fa show ?thesis by simp
    next
      case False
      then have "a < b" using ab by simp
      then have "precedes (xs ! a) (xs ! b)"
        using sorted ab(2) by (simp add: sorted_wrt_nth_less)
      then show ?thesis using fa precedes_trans[of txn "xs ! a" "xs ! b"] by (simp add: f)
    qed
  qed
  have r_le: "r \<le> length xs"
    unfolding r_def by (rule Search_spec(1)[OF mono])
  have lo: "\<And>k. k < r \<Longrightarrow> k < length xs \<Longrightarrow> precedes (xs ! k) txn"
  proof -
    fix k assume k: "k < r" "k < length xs"
    have "\<not> f k"
      by (rule Search_spec(2)[OF mono]) (use k(1) in \<open>simp_all add: r_def\<close>)
    then have "\<not> precedes txn (xs ! k)" by (simp add: f)
    moreover have "ID txn \<noteq> ID (xs ! k)" using other[of "xs ! k"] k(2) by auto
    ultimately show "precedes (xs ! k) txn" by (rule precedes_total[rotated])
  qed
  have hi: "\<And>k. r \<le> k \<Longrightarrow> k < length xs \<Longrightarrow> precedes txn (xs ! k)"
  proof -
    fix k assume "r \<le> k" "k < length xs"
    then have "f k"
      by (intro Search_spec(3)[OF mono]) (simp_all add: r_def)
    then show "precedes txn (xs ! k)" by (simp add: f)
  qed
  have new: "snd (Create s txn)
      = \<lparr>transactions = (transactions s)(ID txn \<mapsto> txn),
         ordered = take r xs @ txn # drop r xs\<rparr>"
    using None r_le
    by (simp add: Create_def Let_def insert_at_eq xs_def r_def f_def)
  have s1: "sorted_wrt precedes (take r xs @ txn # drop r xs)"
    by (rule sorted_wrt_insert_mid[OF sorted lo hi])
  have set_new: "set (take r xs @ txn # drop r xs) = insert txn (set xs)"
  proof -
    have "set (take r xs) \<union> set (drop r xs) = set xs"
      by (metis append_take_drop_id set_append)
    then show ?thesis by auto
  qed
  have s2: "list_all (\<lambda>t. ((transactions s)(ID txn \<mapsto> txn)) (ID t) = Some t)
      (take r xs @ txn # drop r xs)"
    unfolding list_all_iff set_new using held other by auto
  have "ran ((transactions s)(ID txn \<mapsto> txn)) \<subseteq> insert txn (ran (transactions s))"
    by (auto simp: ran_def split: if_splits)
  then have s3: "ran ((transactions s)(ID txn \<mapsto> txn)) \<subseteq> set (take r xs @ txn # drop r xs)"
    unfolding set_new using ran by blast
  show ?thesis
    unfolding new store_inv_def using s1 s2 s3 by simp
qed

lemma creates_inv: "store_inv s \<Longrightarrow> store_inv (creates txns s)"
proof (induction txns arbitrary: s)
  case Nil
  then show ?case by (simp add: creates_def)
next
  case (Cons t txns)
  have "creates (t # txns) s = creates txns (snd (Create s t))"
    by (simp add: creates_def)
  then show ?case using Cons.IH[OF Create_inv[OF Cons.prems]] by simp
qed

lemma store_inv_set:
  assumes "store_inv s"
  shows "set (ordered s) = ran (transactions s)"
proof
  show "set (ordered s) \<subseteq> ran (transactions s)"
  proof
    fix t assume "t \<in> set (ordered s)"
    then have "transactions s (ID t) = Some t"
      using assms by (simp add: store_inv_def list_all_iff)
    then show "t \<in> ran (transactions s)" by (rule ranI)
  qed
  show "ran (transactions s) \<subseteq> set (ordered s)"
    using assms by (simp add: store_inv_def)
qed

text \<open>
  Claim C3 (total order, two structures in step).  After any sequence of \<open>Create\<close>
  calls on a new store, whatever the order of arrival and whatever each call returned,
  the sequence is in order: of two records, the one with the earlier \<open>EffectiveAt\<close>
  comes first, and of two with the same \<open>EffectiveAt\<close> the one with the smaller id
  comes first; and the records of the sequence are exactly the records of the index.
\<close>

theorem C3_total_order_and_same_records:
  "sorted_wrt precedes (ordered (creates txns NewMemoryStore))
   \<and> set (ordered (creates txns NewMemoryStore))
       = ran (transactions (creates txns NewMemoryStore))"
proof -
  have inv: "store_inv (creates txns NewMemoryStore)"
    by (rule creates_inv[OF store_inv_New])
  then have "sorted_wrt precedes (ordered (creates txns NewMemoryStore))"
    by (simp add: store_inv_def)
  with store_inv_set[OF inv] show ?thesis by simp
qed

section \<open>Validation gates\<close>

text \<open>
  Claim C7.  \<open>ValidatePagination\<close> returns nil exactly for a limit in \<open>[1, 1000]\<close> with
  an offset that is not negative; in every other case (limit below 1, limit above 1000,
  negative offset) it returns an error.
\<close>

theorem C7_ValidatePagination_iff:
  "(ValidatePagination limit offset = None)
     = (1 \<le> sint limit \<and> sint limit \<le> 1000 \<and> 0 \<le> sint offset)"
  by (auto simp: ValidatePagination_def)

text \<open>
  Claim C9.  \<open>ValidateTransaction\<close> returns nil exactly when the id is not empty, the
  currency is not empty, the amount is not negative and the timestamp is not the zero
  Time; the metadata plays no part, and an amount of 0 passes.
\<close>

theorem C9_ValidateTransaction_iff:
  "(ValidateTransaction txn = None)
     = (ID txn \<noteq> '''' \<and> Currency txn \<noteq> '''' \<and> 0 \<le> Amount txn
        \<and> \<not> time_IsZero (EffectiveAt txn))"
  by (auto simp: ValidateTransaction_def)


end
